theory Spec2Isabelle
  imports Complex_Main "HOL-Library.AList"
begin

section \<open>Exceptions of the notebooks\<close>

text \<open>
  The notebooks are Python cells run top to bottom. An exception that no \<open>except\<close>
  clause catches ends the cell; it is the left summand of a result. \<open>ClientError\<close>
  carries the service's error code (botocore raises it for every error reply);
  \<open>EndpointConnectionError\<close> is botocore's exception for a service that cannot be
  reached, and is not a \<open>ClientError\<close>.
\<close>

datatype py_error =
    ClientError string
  | EndpointConnectionError
  | RequestError string
  | URLError string
  | IndexError
  | KeyError string
  | TypeError
  | ValueError

section \<open>Chunking policy of the data source (02\_Create-Knowledge-Base, cell "opensearchServerlessConfiguration")\<close>

text \<open>
  \<^verbatim>\<open>
  chunkingStrategyConfiguration = {
      "chunkingStrategy": "FIXED_SIZE",
      "fixedSizeChunkingConfiguration": {
          "maxTokens": 512,
          "overlapPercentage": 20
      }
  }
  \<close>
  and the request of \<open>create_data_source\<close>, which passes that dictionary as
  \<open>vectorIngestionConfiguration.chunkingConfiguration\<close>.
\<close>

record fixed_size_chunking =
  maxTokens :: int
  overlapPercentage :: int

record chunking_configuration =
  chunkingStrategy :: string
  fixedSizeChunkingConfiguration :: fixed_size_chunking

definition chunkingStrategyConfiguration :: chunking_configuration where
  "chunkingStrategyConfiguration =
     \<lparr> chunkingStrategy = ''FIXED_SIZE'',
       fixedSizeChunkingConfiguration = \<lparr> maxTokens = 512, overlapPercentage = 20 \<rparr> \<rparr>"

record data_source_request =
  ds_name :: string
  ds_description :: string
  ds_knowledgeBaseId :: string
  ds_bucketArn :: string
  ds_chunkingConfiguration :: chunking_configuration

definition create_data_source_request :: "string \<Rightarrow> string \<Rightarrow> string \<Rightarrow> string \<Rightarrow> data_source_request" where
  "create_data_source_request name description kb_id bucket_name =
     \<lparr> ds_name = name,
       ds_description = description,
       ds_knowledgeBaseId = kb_id,
       ds_bucketArn = ''arn:aws:s3:::'' @ bucket_name,
       ds_chunkingConfiguration = chunkingStrategyConfiguration \<rparr>"

text \<open>
  The invariant as the specification words it: the overlap fraction (the percentage over
  one hundred) lies in \<open>[0, 1)\<close> and the maximum size is a positive token count.
\<close>

definition overlap_fraction :: "chunking_configuration \<Rightarrow> real" where
  "overlap_fraction c = real_of_int (overlapPercentage (fixedSizeChunkingConfiguration c)) / 100"

definition chunking_invariant :: "chunking_configuration \<Rightarrow> bool" where
  "chunking_invariant c \<longleftrightarrow>
     0 \<le> overlap_fraction c \<and> overlap_fraction c < 1 \<and> 0 < maxTokens (fixedSizeChunkingConfiguration c)"

section \<open>Document download and upload (02\_Create-Knowledge-Base, cells "Download and prepare dataset", "Upload data to s3")\<close>

definition urls :: "string list" where
  "urls =
    [ ''https://docs.aws.amazon.com/AWSEC2/latest/UserGuide/ec2-ug.pdf'',
      ''https://docs.aws.amazon.com/AmazonS3/latest/userguide/s3-userguide.pdf'',
      ''https://docs.aws.amazon.com/amazondynamodb/latest/developerguide/dynamodb-dg.pdf.pdf'',
      ''https://docs.aws.amazon.com/AmazonRDS/latest/UserGuide/index.html.pdf'',
      ''https://docs.aws.amazon.com/AmazonRDS/latest/AuroraUserGuide/aurora-ug.pdf'',
      ''https://docs.aws.amazon.com/lambda/latest/dg/lambda-dg.pdf'',
      ''https://docs.aws.amazon.com/vpc/latest/userguide/vpc-ug.pdf'',
      ''https://docs.aws.amazon.com/athena/latest/ug/athena-ug.pdf'',
      ''https://docs.aws.amazon.com/apigateway/latest/developerguide/apigateway-dg.pdf'',
      ''https://docs.aws.amazon.com/bedrock/latest/userguide/bedrock-ug.pdf'',
      ''https://docs.aws.amazon.com/AmazonCloudFront/latest/DeveloperGuide/AmazonCloudFront_DevGuide.pdf'',
      ''https://docs.aws.amazon.com/AmazonCloudWatch/latest/monitoring/acw-ug.pdf'',
      ''https://docs.aws.amazon.com/codewhisperer/latest/userguide/user-guide.pdf'',
      ''https://docs.aws.amazon.com/cognito/latest/developerguide/cognito-dg.pdf#cognito-user-identity-pools'',
      ''https://docs.aws.amazon.com/documentdb/latest/developerguide/developerguide.pdf'',
      ''https://docs.aws.amazon.com/pdfs/neptune/latest/userguide/neptune-ug.pdf#intro'' ]"

text \<open>
  The source's list literal has no comma between its last two string literals, which
  Python joins into one string at compile time:
  \<^verbatim>\<open>
      'Amazondocumentdb.pdf'
      'neptune.pdf'
  ]
  \<close>
\<close>

definition filenames :: "string list" where
  "filenames =
    [ ''AmazonEC2UserGuide.pdf'',
      ''AmazonS3UserGuide.pdf'',
      ''AmazonDynamodbDeveloperGuide.pdf'',
      ''AmazonAuroraUserGuide.pdf'',
      ''AmazonLambda.pdf'',
      ''AmazonVPC.pdf'',
      ''AmazonAthena.pdf'',
      ''AmazonAPIGateway.pdf'',
      ''AmazonBedrock.pdf'',
      ''AmazonCloudFront.pdf'',
      ''AmazonCloudWatch.pdf'',
      ''Amazoncodewhisperer.pdf'',
      ''Amazoncognito.pdf'',
      ''Amazondocumentdb.pdf'' @ ''neptune.pdf'' ]"

definition data_root :: string where
  "data_root = ''./data/''"

text \<open>\<open>xs[i]\<close> for an index that \<open>enumerate\<close> produced (never negative).\<close>

definition list_item :: "'a list \<Rightarrow> nat \<Rightarrow> py_error + 'a" where
  "list_item xs i = (if i < length xs then Inr (xs ! i) else Inl IndexError)"

text \<open>
  The data directory is an association list from file path to the URL whose content the
  file holds; \<open>urlretrieve(url, file_path)\<close> writes (or overwrites) one file, and the
  call itself may raise. The directory is empty before the cell runs.
  \<^verbatim>\<open>
  for idx, url in enumerate(urls):
      file_path = data_root + filenames[idx]
      urlretrieve(url, file_path)
  \<close>
\<close>

type_synonym directory = "(string \<times> string) list"

fun download_loop ::
  "(string \<Rightarrow> string \<Rightarrow> py_error + unit) \<Rightarrow> string list \<Rightarrow> nat \<Rightarrow> string list \<Rightarrow> directory
     \<Rightarrow> (py_error + unit) \<times> directory" where
  "download_loop urlretrieve fnames idx [] dir = (Inr (), dir)"
| "download_loop urlretrieve fnames idx (url # rest) dir =
     (case list_item fnames idx of
        Inl e \<Rightarrow> (Inl e, dir)
      | Inr fname \<Rightarrow>
          (let file_path = data_root @ fname in
           case urlretrieve url file_path of
             Inl e \<Rightarrow> (Inl e, dir)
           | Inr _ \<Rightarrow> download_loop urlretrieve fnames (Suc idx) rest (AList.update file_path url dir)))"

definition download_cell :: "(string \<Rightarrow> string \<Rightarrow> py_error + unit) \<Rightarrow> (py_error + unit) \<times> directory" where
  "download_cell urlretrieve = download_loop urlretrieve filenames 0 urls []"

text \<open>
  \<^verbatim>\<open>
  def uploadDirectory(path,bucket_name):
          for root,dirs,files in os.walk(path):
              for file in files:
                  s3_client.upload_file(os.path.join(root,file),bucket_name,file)
  \<close>
  One \<open>upload_file\<close> call (path, bucket, key) per file of the directory, the key being
  the bare file name (the path after its last slash). \<open>os.walk\<close> fixes no order among
  the files of a directory, so the calls are a set.
\<close>

definition basename :: "string \<Rightarrow> string" where
  "basename file_path = rev (takeWhile (\<lambda>c. c \<noteq> CHR ''/'') (rev file_path))"

definition uploadDirectory :: "directory \<Rightarrow> string \<Rightarrow> (string \<times> string \<times> string) set" where
  "uploadDirectory dir bucket_name =
     (\<lambda>(file_path, _). (file_path, bucket_name, basename file_path)) ` set dir"

text \<open>
  Stub downloads: one that always succeeds, one with no network, one for which the third
  URL is a broken link.
\<close>

definition urlretrieve_ok :: "string \<Rightarrow> string \<Rightarrow> py_error + unit" where
  "urlretrieve_ok url file_path = Inr ()"

definition urlretrieve_offline :: "string \<Rightarrow> string \<Rightarrow> py_error + unit" where
  "urlretrieve_offline url file_path = Inl (URLError ''Name or service not known'')"

definition urlretrieve_third_missing :: "string \<Rightarrow> string \<Rightarrow> py_error + unit" where
  "urlretrieve_third_missing url file_path =
     (if url = urls ! 2 then Inl (URLError ''HTTP Error 404: Not Found'') else Inr ())"

section \<open>Waiting for the collection (02\_Create-Knowledge-Base, cell "wait for collection creation")\<close>

text \<open>
  Modelled from the spec: \<open>interactive_sleep\<close> is imported from the repository's
  \<open>utility\<close> module, which is not among the source files. The specification describes
  each poll as "a blocking wait-then-check cycle" that sleeps "a fixed or backoff-derived
  interval between checks"; the helper is modelled as advancing a clock of elapsed
  seconds by its argument and doing nothing else.
\<close>

definition interactive_sleep :: "nat \<Rightarrow> nat \<Rightarrow> nat" where
  "interactive_sleep seconds clock = clock + seconds"

record collection_detail =
  cd_id :: string
  cd_name :: string
  cd_status :: string

record batch_get_response =
  collectionDetails :: "collection_detail list"

text \<open>
  The service is an oracle: its reply to the \<open>n\<close>-th \<open>batch_get_collection\<close> call
  (counted from 0) is \<open>batch_get_collection n\<close>, a response or an exception. The loop
  returns its outcome together with the number of calls made and the seconds slept; a run
  that never leaves the loop has the value \<open>None\<close>.
  \<^verbatim>\<open>
  response = aoss_client.batch_get_collection(names=[vector_store_name])
  while (response['collectionDetails'][0]['status']) == 'CREATING':
      print('Creating collection...')
      interactive_sleep(30)
      response = aoss_client.batch_get_collection(names=[vector_store_name])
  print('\nCollection successfully created:')
  \<close>
\<close>

partial_function (option) wait_collection_loop ::
  "(nat \<Rightarrow> py_error + batch_get_response) \<Rightarrow> nat \<Rightarrow> nat \<Rightarrow> batch_get_response
     \<Rightarrow> ((py_error + batch_get_response) \<times> nat \<times> nat) option" where
  "wait_collection_loop batch_get_collection polls clock response =
     (case list_item (collectionDetails response) 0 of
        Inl e \<Rightarrow> Some (Inl e, polls, clock)
      | Inr detail \<Rightarrow>
          if cd_status detail = ''CREATING'' then
            (case batch_get_collection polls of
               Inl e \<Rightarrow> Some (Inl e, Suc polls, interactive_sleep 30 clock)
             | Inr response' \<Rightarrow>
                 wait_collection_loop batch_get_collection (Suc polls) (interactive_sleep 30 clock) response')
          else Some (Inr response, polls, clock))"

declare wait_collection_loop.simps [code]

definition wait_for_collection ::
  "(nat \<Rightarrow> py_error + batch_get_response) \<Rightarrow> ((py_error + batch_get_response) \<times> nat \<times> nat) option" where
  "wait_for_collection batch_get_collection =
     (case batch_get_collection 0 of
        Inl e \<Rightarrow> Some (Inl e, 1, 0)
      | Inr response \<Rightarrow> wait_collection_loop batch_get_collection 1 0 response)"

text \<open>
  Vocabulary for the statements: a response that keeps the loop going, a reply that does,
  and what the cell yields for the reply that ends the loop.
\<close>

definition still_creating :: "batch_get_response \<Rightarrow> bool" where
  "still_creating r = (case collectionDetails r of [] \<Rightarrow> False | d # _ \<Rightarrow> cd_status d = ''CREATING'')"

definition reply_creating :: "py_error + batch_get_response \<Rightarrow> bool" where
  "reply_creating reply = (case reply of Inl _ \<Rightarrow> False | Inr r \<Rightarrow> still_creating r)"

definition poll_outcome :: "py_error + batch_get_response \<Rightarrow> py_error + batch_get_response" where
  "poll_outcome reply =
     (case reply of
        Inl e \<Rightarrow> Inl e
      | Inr r \<Rightarrow> (case collectionDetails r of [] \<Rightarrow> Inl IndexError | _ # _ \<Rightarrow> Inr r))"

text \<open>Stub services: one whose collection never leaves \<open>CREATING\<close>, one that is \<open>ACTIVE\<close> from its fourth poll on.\<close>

definition creating_response :: batch_get_response where
  "creating_response =
     \<lparr> collectionDetails = [\<lparr> cd_id = ''c1'', cd_name = ''bedrock-sample-rag-200'', cd_status = ''CREATING'' \<rparr>] \<rparr>"

definition active_response :: batch_get_response where
  "active_response =
     \<lparr> collectionDetails = [\<lparr> cd_id = ''c1'', cd_name = ''bedrock-sample-rag-200'', cd_status = ''ACTIVE'' \<rparr>] \<rparr>"

definition stuck_collection_backend :: "nat \<Rightarrow> py_error + batch_get_response" where
  "stuck_collection_backend n = Inr creating_response"

definition slow_collection_backend :: "nat \<Rightarrow> py_error + batch_get_response" where
  "slow_collection_backend n = Inr (if n < 3 then creating_response else active_response)"

section \<open>Waiting for the ingestion job (02\_Create-Knowledge-Base, cells "Start an ingestion job", "Get job")\<close>

record ingestion_job =
  ingestionJobId :: string
  job_status :: string
  failureReasons :: "string list"

text \<open>
  \<open>get_ingestion_job n\<close> is the service's reply to the \<open>n\<close>-th \<open>get_ingestion_job\<close>
  call; \<open>start_ingestion_job\<close> is its reply to the one \<open>start_ingestion_job\<close> call.
  \<^verbatim>\<open>
  start_job_response = bedrock_agent_client.start_ingestion_job(...)
  job = start_job_response["ingestionJob"]
  while(job['status']!='COMPLETE' ):
      get_job_response = bedrock_agent_client.get_ingestion_job(...)
      job = get_job_response["ingestionJob"]
      interactive_sleep(30)
  pp.pprint(job)
  \<close>
\<close>

partial_function (option) ingestion_loop ::
  "(nat \<Rightarrow> py_error + ingestion_job) \<Rightarrow> nat \<Rightarrow> nat \<Rightarrow> ingestion_job
     \<Rightarrow> ((py_error + ingestion_job) \<times> nat \<times> nat) option" where
  "ingestion_loop get_ingestion_job polls clock job =
     (if job_status job \<noteq> ''COMPLETE'' then
        (case get_ingestion_job polls of
           Inl e \<Rightarrow> Some (Inl e, Suc polls, clock)
         | Inr job' \<Rightarrow> ingestion_loop get_ingestion_job (Suc polls) (interactive_sleep 30 clock) job')
      else Some (Inr job, polls, clock))"

declare ingestion_loop.simps [code]

definition ingestion_cells ::
  "py_error + ingestion_job \<Rightarrow> (nat \<Rightarrow> py_error + ingestion_job)
     \<Rightarrow> ((py_error + ingestion_job) \<times> nat \<times> nat) option" where
  "ingestion_cells start_ingestion_job get_ingestion_job =
     (case start_ingestion_job of
        Inl e \<Rightarrow> Some (Inl e, 0, 0)
      | Inr job \<Rightarrow> ingestion_loop get_ingestion_job 0 0 job)"

definition reply_pending :: "py_error + ingestion_job \<Rightarrow> bool" where
  "reply_pending reply = (case reply of Inl _ \<Rightarrow> False | Inr job \<Rightarrow> job_status job \<noteq> ''COMPLETE'')"

text \<open>
  Stub services: a job that fails on its third poll and stays \<open>FAILED\<close>, one that stays
  \<open>IN_PROGRESS\<close>, one that completes on its third poll.
\<close>

definition job_in_state :: "string \<Rightarrow> string list \<Rightarrow> ingestion_job" where
  "job_in_state s reasons = \<lparr> ingestionJobId = ''job-1'', job_status = s, failureReasons = reasons \<rparr>"

definition failing_job_backend :: "nat \<Rightarrow> py_error + ingestion_job" where
  "failing_job_backend n =
     Inr (if n < 2 then job_in_state ''IN_PROGRESS'' []
          else job_in_state ''FAILED'' [''The bucket holds no readable document''])"

definition hanging_job_backend :: "nat \<Rightarrow> py_error + ingestion_job" where
  "hanging_job_backend n = Inr (job_in_state ''IN_PROGRESS'' [])"

definition completing_job_backend :: "nat \<Rightarrow> py_error + ingestion_job" where
  "completing_job_backend n = Inr (job_in_state (if n < 2 then ''IN_PROGRESS'' else ''COMPLETE'') [])"

section \<open>Bucket and collection creation (02\_Create-Knowledge-Base, cells "Check if bucket exists", "create security, network and data access policies")\<close>















section \<open>Retrieval (RAG query notebook, cells "def retrieve", "def get\_contexts", LangChain retriever)\<close>





record retrieve_request =
  retrievalQuery_text :: string
  knowledgeBaseId :: string
  numberOfResults :: int
  overrideSearchType :: string

record retrieval_result =
  content_text :: string
  location_uri :: string
  score :: rat

record retrieve_response =
  retrievalResults :: "retrieval_result list"

text \<open>
  \<^verbatim>\<open>
  def retrieve(query, kbId, numberOfResults=5):
      return bedrock_agent_client.retrieve(
          retrievalQuery= { 'text': query },
          knowledgeBaseId=kbId,
          retrievalConfiguration= {
              'vectorSearchConfiguration': {
                  'numberOfResults': numberOfResults,
                  'overrideSearchType': "HYBRID", # optional
              }
          }
      )
  \<close>
  The third parameter is optional (\<open>None\<close> stands for an omitted argument). The client
  is the service: it answers a request with a response or an exception.
\<close>

definition retrieve_request_of :: "string \<Rightarrow> string \<Rightarrow> int option \<Rightarrow> retrieve_request" where
  "retrieve_request_of query kbId n =
     \<lparr> retrievalQuery_text = query,
       knowledgeBaseId = kbId,
       numberOfResults = (case n of None \<Rightarrow> 5 | Some k \<Rightarrow> k),
       overrideSearchType = ''HYBRID'' \<rparr>"

definition retrieve ::
  "(retrieve_request \<Rightarrow> py_error + retrieve_response) \<Rightarrow> string \<Rightarrow> string \<Rightarrow> int option
     \<Rightarrow> py_error + retrieve_response" where
  "retrieve bedrock_agent_client query kbId n = bedrock_agent_client (retrieve_request_of query kbId n)"

text \<open>
  \<^verbatim>\<open>
  def get_contexts(retrievalResults):
      contexts = []
      for retrievedResult in retrievalResults:
          contexts.append(retrievedResult['content']['text'])
      return contexts
  \<close>
\<close>

fun get_contexts_loop :: "string list \<Rightarrow> retrieval_result list \<Rightarrow> string list" where
  "get_contexts_loop contexts [] = contexts"
| "get_contexts_loop contexts (retrievedResult # rest) =
     get_contexts_loop (contexts @ [content_text retrievedResult]) rest"

definition get_contexts :: "retrieval_result list \<Rightarrow> string list" where
  "get_contexts rs = get_contexts_loop [] rs"

text \<open>
  \<^verbatim>\<open>
  response = retrieve(query, kb_id, 5)
  retrievalResults = response['retrievalResults']
  contexts = get_contexts(retrievalResults)
  \<close>
\<close>

definition retrieve_contexts ::
  "(retrieve_request \<Rightarrow> py_error + retrieve_response) \<Rightarrow> string \<Rightarrow> string \<Rightarrow> int option
     \<Rightarrow> py_error + string list" where
  "retrieve_contexts bedrock_agent_client query kb_id n =
     (case retrieve bedrock_agent_client query kb_id n of
        Inl e \<Rightarrow> Inl e
      | Inr response \<Rightarrow> Inr (get_contexts (retrievalResults response)))"

text \<open>
  The retrieval configuration of the LangChain retriever, the notebook's second path:
  \<^verbatim>\<open>
  retriever = AmazonKnowledgeBasesRetriever(
          knowledge_base_id=kb_id,
          retrieval_config={"vectorSearchConfiguration":
                            {"numberOfResults": 4,
                             'overrideSearchType': "SEMANTIC", # optional
                             }},
      )
  \<close>
\<close>

definition langchain_retriever_request :: "string \<Rightarrow> string \<Rightarrow> retrieve_request" where
  "langchain_retriever_request query kb_id =
     \<lparr> retrievalQuery_text = query,
       knowledgeBaseId = kb_id,
       numberOfResults = 4,
       overrideSearchType = ''SEMANTIC'' \<rparr>"

text \<open>Stub retrieval services for the statements below.\<close>

definition passage :: "string \<Rightarrow> rat \<Rightarrow> retrieval_result" where
  "passage t s = \<lparr> content_text = t, location_uri = ''s3://bedrock-kb/doc.pdf'', score = s \<rparr>"

definition three_passages :: retrieve_response where
  "three_passages =
     \<lparr> retrievalResults = [passage ''P1'' (9 / 10), passage ''P2'' (7 / 10), passage ''P3'' (1 / 2)] \<rparr>"

definition fixed_three_client :: "retrieve_request \<Rightarrow> py_error + retrieve_response" where
  "fixed_three_client request = Inr three_passages"

definition honest_client :: "retrieve_request \<Rightarrow> py_error + retrieve_response" where
  "honest_client request =
     Inr \<lparr> retrievalResults = take (nat (numberOfResults request)) (retrievalResults three_passages) \<rparr>"

definition empty_client :: "retrieve_request \<Rightarrow> py_error + retrieve_response" where
  "empty_client request = Inr \<lparr> retrievalResults = [] \<rparr>"

section \<open>Generation (RAG query notebook, cells "payload with model paramters", "invoke\_model")\<close>

record sonnet_payload =
  anthropic_version :: string
  max_tokens :: int
  messages :: "(string \<times> (string \<times> string) list) list"
  temperature :: rat
  top_p :: int

record invoke_request =
  body :: sonnet_payload
  modelId :: string
  accept :: string
  contentType :: string

text \<open>
  The decoded response body. \<open>content\<close> may be absent (\<open>.get\<close> then gives \<open>None\<close>), and
  a content block need not have a \<open>text\<close> entry.
\<close>

record content_block =
  block_type :: string
  block_text :: "string option"

record response_body =
  response_content :: "content_block list option"

text \<open>
  \<^verbatim>\<open>
  messages=[{ "role":'user', "content":[{'type':'text','text': prompt.format(contexts, query)}]}]
  sonnet_payload = json.dumps({
      "anthropic_version": "bedrock-2023-05-31",
      "max_tokens": 512,
      "messages": messages,
      "temperature": 0.5,
      "top_p": 1
          }  )
  \<close>
  The text of the message is the argument here; the next section builds it.
\<close>

definition sonnet_payload_of :: "string \<Rightarrow> sonnet_payload" where
  "sonnet_payload_of text_block =
     \<lparr> anthropic_version = ''bedrock-2023-05-31'',
       max_tokens = 512,
       messages = [(''user'', [(''text'', text_block)])],
       temperature = 1 / 2,
       top_p = 1 \<rparr>"

text \<open>\<open>response_body.get('content')[0]['text']\<close>\<close>

definition response_text :: "response_body \<Rightarrow> py_error + string" where
  "response_text response_body =
     (case response_content response_body of
        None \<Rightarrow> Inl TypeError
      | Some [] \<Rightarrow> Inl IndexError
      | Some (block # _) \<Rightarrow>
          (case block_text block of None \<Rightarrow> Inl (KeyError ''text'') | Some t \<Rightarrow> Inr t))"

text \<open>
  The cell calls the client method \<open>bedrock_client.invoke_model\<close> once. Here
  \<open>invoke_model n request\<close> is the outcome of the \<open>n\<close>-th call of that method (counted
  from 0): what the SDK client hands back, after whatever requests it sent to the
  service. The cell returns the response text or the exception, together with the
  number of calls of the client method.
  \<^verbatim>\<open>
  modelId = 'anthropic.claude-3-sonnet-20240229-v1:0'
  accept = 'application/json'
  contentType = 'application/json'
  response = bedrock_client.invoke_model(body=sonnet_payload, modelId=modelId, accept=accept, contentType=contentType)
  response_body = json.loads(response.get('body').read())
  response_text = response_body.get('content')[0]['text']
  \<close>
\<close>

definition invoke_request_of :: "sonnet_payload \<Rightarrow> invoke_request" where
  "invoke_request_of payload =
     \<lparr> body = payload,
       modelId = ''anthropic.claude-3-sonnet-20240229-v1:0'',
       accept = ''application/json'',
       contentType = ''application/json'' \<rparr>"

definition invoke_cell ::
  "(nat \<Rightarrow> invoke_request \<Rightarrow> py_error + response_body) \<Rightarrow> sonnet_payload \<Rightarrow> (py_error + string) \<times> nat" where
  "invoke_cell invoke_model payload =
     (case invoke_model 0 (invoke_request_of payload) of
        Inl e \<Rightarrow> (Inl e, 1)
      | Inr response_body \<Rightarrow> (response_text response_body, 1))"

text \<open>A client method that answers every call.\<close>

definition answer_body :: response_body where
  "answer_body = \<lparr> response_content = Some [\<lparr> block_type = ''text'', block_text = Some ''Use Amazon DynamoDB.'' \<rparr>] \<rparr>"

definition answering_backend :: "nat \<Rightarrow> invoke_request \<Rightarrow> py_error + response_body" where
  "answering_backend n request = Inr answer_body"

subsection \<open>The requests behind one call: the SDK client's retries\<close>













section \<open>Prompt assembly (RAG query notebook, cells "prompt = f...", "payload with model paramters")\<close>

subsection \<open>Python strings: \<open>repr\<close> and \<open>str\<close> of a list\<close>

text \<open>
  A Python string is modelled as a list of code points below 256 (a \<open>char\<close> is its code
  point, Latin-1); the statements below speak of such strings only.
\<close>

definition backslash :: char where
  "backslash = CHR 0x5C"

definition single_quote :: char where
  "single_quote = CHR 0x27"

definition double_quote :: char where
  "double_quote = CHR 0x22"

definition hex_digit :: "nat \<Rightarrow> char" where
  "hex_digit n = ''0123456789abcdef'' ! n"

definition hex_escape :: "char \<Rightarrow> string" where
  "hex_escape c = [backslash, CHR ''x'', hex_digit (of_char c div 16), hex_digit (of_char c mod 16)]"

text \<open>
  \<open>str.isprintable\<close> on one code point below 256: the ASCII range from space to tilde,
  and Latin-1 from U+00A1 on except the soft hyphen U+00AD.
\<close>

definition py_printable :: "char \<Rightarrow> bool" where
  "py_printable c = (let n = (of_char c :: nat) in (32 \<le> n \<and> n < 127) \<or> (161 \<le> n \<and> n \<noteq> 173))"

definition repr_char :: "char \<Rightarrow> char \<Rightarrow> string" where
  "repr_char quote c =
     (if c = quote \<or> c = backslash then [backslash, c]
      else if c = CHR 0x09 then [backslash, CHR ''t'']
      else if c = CHR 0x0A then [backslash, CHR ''n'']
      else if c = CHR 0x0D then [backslash, CHR ''r'']
      else if py_printable c then [c]
      else hex_escape c)"

text \<open>
  \<open>repr(s)\<close>: single quotes, unless the string has a single quote and no double quote.
\<close>

definition py_repr :: "string \<Rightarrow> string" where
  "py_repr s =
     (let quote = (if single_quote \<in> set s \<and> double_quote \<notin> set s then double_quote else single_quote)
      in quote # concat (map (repr_char quote) s) @ [quote])"

fun py_join :: "string \<Rightarrow> string list \<Rightarrow> string" where
  "py_join sep [] = []"
| "py_join sep [x] = x"
| "py_join sep (x # y # ys) = x @ sep @ py_join sep (y # ys)"

text \<open>\<open>str(xs)\<close> for a list of strings: the \<open>repr\<close> of each element, comma-separated, in brackets.\<close>

definition py_str_list :: "string list \<Rightarrow> string" where
  "py_str_list xs = ''['' @ py_join '', '' (map py_repr xs) @ '']''"

datatype py_arg = PyList "string list" | PyStr string

fun py_str :: "py_arg \<Rightarrow> string" where
  "py_str (PyList xs) = py_str_list xs"
| "py_str (PyStr s) = s"

subsection \<open>The prompt (RAG query notebook, cell "prompt = f...")\<close>

text \<open>
  The prompt is an f-string, evaluated when its cell runs; \<open>contexts\<close> is the list
  that \<open>get_contexts\<close> returned, so \<open>{contexts}\<close> interpolates \<open>str\<close> of that list,
  and \<open>{query}\<close> the query string itself.
  \<^verbatim>\<open>
  prompt = f"""
  Human: Analyze the requirement in query to ... in my project?
  <context>
  {contexts}
  </context>

  <question>
  {query}
  </question>

  The response should be specific and use statistics or numbers when possible.

  Assistant:"""
  \<close>
\<close>

definition prompt_head :: string where
  "prompt_head =
     ''\<newline>Human: Analyze the requirement in query to briefly introduce and suggest relevant AWS Products, AWS services and Amazon services. Write a step-by-step usage of Relevant AWS Services based on the project. Suggest blogs and relevant resources from AWS to support the user to work with Relevant AWS Services and How I can use these AWS Services in my project?\<newline><context>\<newline>''"

definition prompt_middle :: string where
  "prompt_middle = ''\<newline></context>\<newline>\<newline><question>\<newline>''"

definition prompt_tail :: string where
  "prompt_tail =
     ''\<newline></question>\<newline>\<newline>The response should be specific and use statistics or numbers when possible.\<newline>\<newline>Assistant:''"

definition prompt :: "string list \<Rightarrow> string \<Rightarrow> string" where
  "prompt contexts query = prompt_head @ py_str_list contexts @ prompt_middle @ query @ prompt_tail"


subsection \<open>\<open>str.format\<close>\<close>

text \<open>
  The payload cell formats the finished prompt a second time,
  \<open>prompt.format(contexts, query)\<close>, with two positional arguments and no keyword
  argument. The model follows the interpreter's formatter: literal text is copied,
  \<open>{{\<close> and \<open>}}\<close> stand for one brace, a lone \<open>}\<close> or a \<open>{\<close> at the end is a
  \<open>ValueError\<close>, and any other \<open>{\<close> opens a replacement field
  \<open>{name!conversion:spec}\<close>, which is parsed and then looked up among the arguments.

  An outcome is the formatted string, an exception, or \<open>Unmodelled\<close>: the field named
  an existing argument and asked for more than its plain \<open>str\<close> (an attribute or item
  of it, a conversion, a non-empty format specification), or its index does not fit 32
  bits; what the interpreter does then is not modelled, and no statement below rests on
  such a case.
\<close>

datatype 'a outcome = Returns 'a | Raises py_error | Unmodelled

text \<open>
  The field name runs to the first \<open>}\<close>, \<open>:\<close> or \<open>!\<close>; a \<open>{\<close> inside it is an
  error, and between \<open>[\<close> and the next \<open>]\<close> every character is skipped. The result is
  the name, the character that ended it, and the rest of the input.
\<close>

fun scan_field_name :: "bool \<Rightarrow> string \<Rightarrow> string \<Rightarrow> py_error + string \<times> char \<times> string" where
  "scan_field_name in_bracket name [] = Inl ValueError"
| "scan_field_name in_bracket name (c # cs) =
     (if in_bracket then scan_field_name (c \<noteq> CHR '']'') (name @ [c]) cs
      else if c = CHR ''{'' then Inl ValueError
      else if c = CHR ''['' then scan_field_name True (name @ [c]) cs
      else if c = CHR ''}'' \<or> c = CHR '':'' \<or> c = CHR ''!'' then Inr (name, c, cs)
      else scan_field_name False (name @ [c]) cs)"

text \<open>The format specification runs to the \<open>}\<close> that closes the field, counting nested braces.\<close>

fun scan_format_spec :: "nat \<Rightarrow> string \<Rightarrow> string \<Rightarrow> py_error + string \<times> string" where
  "scan_format_spec count spec [] = Inl ValueError"
| "scan_format_spec count spec (c # cs) =
     (if c = CHR ''{'' then scan_format_spec (Suc count) (spec @ [c]) cs
      else if c = CHR ''}'' then
        (if count = 1 then Inr (spec, cs) else scan_format_spec (count - 1) (spec @ [c]) cs)
      else scan_format_spec count (spec @ [c]) cs)"

type_synonym replacement_field = "string \<times> char option \<times> string"

definition parse_field :: "string \<Rightarrow> py_error + replacement_field \<times> string" where
  "parse_field input =
     (case scan_field_name False [] input of
        Inl e \<Rightarrow> Inl e
      | Inr (name, c, rest) \<Rightarrow>
          if c = CHR ''}'' then Inr ((name, None, []), rest)
          else if c = CHR ''!'' then
            (case rest of
               [] \<Rightarrow> Inl ValueError
             | conversion # rest1 \<Rightarrow>
                 (case rest1 of
                    [] \<Rightarrow> Inl ValueError
                  | c2 # rest2 \<Rightarrow>
                      if c2 = CHR ''}'' then Inr ((name, Some conversion, []), rest2)
                      else if c2 \<noteq> CHR '':'' then Inl ValueError
                      else (case scan_format_spec 1 [] rest2 of
                              Inl e \<Rightarrow> Inl e
                            | Inr (spec, rest3) \<Rightarrow> Inr ((name, Some conversion, spec), rest3))))
          else (case scan_format_spec 1 [] rest of
                  Inl e \<Rightarrow> Inl e
                | Inr (spec, rest1) \<Rightarrow> Inr ((name, None, spec), rest1)))"

text \<open>
  Fields are numbered automatically (\<open>{}\<close>) or by hand (\<open>{0}\<close>), never both in one
  format string. A field name that is neither empty nor a number is a keyword, and no
  keyword argument was passed: \<open>KeyError\<close>.
\<close>

datatype numbering = ANS_INIT | ANS_AUTO | ANS_MANUAL

definition is_digit :: "char \<Rightarrow> bool" where
  "is_digit c = (48 \<le> (of_char c :: nat) \<and> (of_char c :: nat) \<le> 57)"

definition get_integer :: "string \<Rightarrow> int option" where
  "get_integer s =
     (if s \<noteq> [] \<and> list_all is_digit s
      then Some (foldl (\<lambda>accumulator c. accumulator * 10 + (of_char c - 48)) 0 s)
      else None)"

definition render_field ::
  "py_arg list \<Rightarrow> numbering \<times> nat \<Rightarrow> replacement_field \<Rightarrow> string outcome \<times> (numbering \<times> nat)" where
  "render_field args st field =
     (case field of (name, conversion, spec) \<Rightarrow>
      (case st of (an_state, an_field_number) \<Rightarrow>
        (let first = takeWhile (\<lambda>c. c \<noteq> CHR ''.'' \<and> c \<noteq> CHR ''['') name;
             rest = dropWhile (\<lambda>c. c \<noteq> CHR ''.'' \<and> c \<noteq> CHR ''['') name;
             first_idx = get_integer first;
             field_name_is_empty = (first = []);
             using_numeric_index = (field_name_is_empty \<or> first_idx \<noteq> None);
             an_state' = (if an_state = ANS_INIT \<and> using_numeric_index
                          then (if field_name_is_empty then ANS_AUTO else ANS_MANUAL)
                          else an_state)
         in (if using_numeric_index \<and>
                ((an_state' = ANS_MANUAL \<and> field_name_is_empty) \<or>
                 (an_state' = ANS_AUTO \<and> \<not> field_name_is_empty))
             then (Raises ValueError, (an_state', an_field_number))
             else
               (let index = (if field_name_is_empty then Some (int an_field_number) else first_idx);
                    st' = (an_state', if field_name_is_empty then Suc an_field_number else an_field_number)
                in (case index of
                      None \<Rightarrow> (Raises (KeyError first), st')
                    | Some i \<Rightarrow>
                        (if (2 :: int) ^ 31 \<le> i then (Unmodelled, st')
                         else if int (length args) \<le> i then (Raises IndexError, st')
                         else if rest \<noteq> [] \<or> conversion \<noteq> None \<or> spec \<noteq> [] then (Unmodelled, st')
                         else (Returns (py_str (args ! nat i)), st'))))))))"

function format_loop :: "py_arg list \<Rightarrow> numbering \<times> nat \<Rightarrow> string \<Rightarrow> string \<Rightarrow> string outcome" where
  "format_loop args st out [] = Returns out"
| "format_loop args st out (c # cs) =
     (if c = CHR ''}'' then
        (case cs of
           [] \<Rightarrow> Raises ValueError
         | d # ds \<Rightarrow> if d = CHR ''}'' then format_loop args st (out @ [c]) ds else Raises ValueError)
      else if c = CHR ''{'' then
        (case cs of
           [] \<Rightarrow> Raises ValueError
         | d # ds \<Rightarrow>
             if d = CHR ''{'' then format_loop args st (out @ [c]) ds
             else (case parse_field cs of
                     Inl e \<Rightarrow> Raises e
                   | Inr (field, rest) \<Rightarrow>
                       (case render_field args st field of
                          (Returns s, st') \<Rightarrow> format_loop args st' (out @ s) rest
                        | (Raises e, st') \<Rightarrow> Raises e
                        | (Unmodelled, st') \<Rightarrow> Unmodelled)))
      else format_loop args st (out @ [c]) cs)"
  by pat_completeness auto
termination
proof (relation "measure (\<lambda>(args, st, out, input). length input)", goal_cases)
  case 1
  show ?case by simp
next
  case (2 args st out c cs d ds)
  then show ?case by simp
next
  case (3 args st out c cs d ds)
  then show ?case by simp
next
  case (4 args st out c cs d ds x field rest r s st')
  have name_len: "\<And>b name input n t r. scan_field_name b name input = Inr (n, t, r) \<Longrightarrow> length r < length input"
  proof -
    fix b name input n t r
    show "scan_field_name b name input = Inr (n, t, r) \<Longrightarrow> length r < length input"
    proof (induction input arbitrary: b name)
      case Nil
      then show ?case by simp
    next
      case (Cons a input)
      then show ?case by (fastforce split: if_splits)
    qed
  qed
  have spec_len: "\<And>k spec input s r. scan_format_spec k spec input = Inr (s, r) \<Longrightarrow> length r < length input"
  proof -
    fix k spec input s r
    show "scan_format_spec k spec input = Inr (s, r) \<Longrightarrow> length r < length input"
    proof (induction input arbitrary: k spec)
      case Nil
      then show ?case by simp
    next
      case (Cons a input)
      then show ?case by (fastforce split: if_splits)
    qed
  qed
  from 4 have pf: "parse_field cs = Inr (field, rest)" by simp
  have "length rest < length cs"
    using pf name_len spec_len
    by (fastforce simp: parse_field_def split: sum.splits prod.splits if_splits list.splits)
  then show ?case by simp
next
  case 5
  then show ?case by simp
qed

definition py_format :: "string \<Rightarrow> py_arg list \<Rightarrow> string outcome" where
  "py_format fmt args = format_loop args (ANS_INIT, 0) [] fmt"

text \<open>\<open>prompt.format(contexts, query)\<close>, the text of the message sent to the model.\<close>

definition message_text :: "string list \<Rightarrow> string \<Rightarrow> string outcome" where
  "message_text contexts query = py_format (prompt contexts query) [PyList contexts, PyStr query]"

text \<open>
  The payload cell and the invocation cell together: a formatting exception ends the run
  before any request is sent.
\<close>

definition generation_step ::
  "(nat \<Rightarrow> invoke_request \<Rightarrow> py_error + response_body) \<Rightarrow> string list \<Rightarrow> string
     \<Rightarrow> ((py_error + string) \<times> nat) outcome" where
  "generation_step invoke_model contexts query =
     (case message_text contexts query of
        Returns t \<Rightarrow> Returns (invoke_cell invoke_model (sonnet_payload_of t))
      | Raises e \<Rightarrow> Raises e
      | Unmodelled \<Rightarrow> Unmodelled)"

text \<open>Vocabulary for the statements: brace characters and occurrences.\<close>

definition is_brace :: "char \<Rightarrow> bool" where
  "is_brace c = (c = CHR ''{'' \<or> c = CHR ''}'')"

definition brace_free :: "string \<Rightarrow> bool" where
  "brace_free s = list_all (\<lambda>c. \<not> is_brace c) s"

definition brace_count :: "string \<Rightarrow> nat" where
  "brace_count s = length (filter is_brace s)"




section \<open>Theorems\<close>

subsection \<open>The collection wait\<close>

lemma still_creating_item:
  "still_creating r \<Longrightarrow> \<exists>d. list_item (collectionDetails r) 0 = Inr d \<and> cd_status d = ''CREATING''"
  by (cases "collectionDetails r") (simp_all add: still_creating_def list_item_def)

lemma wait_collection_loop_returns_only_if:
  assumes ret: "wait_collection_loop b polls clock response = Some y"
    and sc: "still_creating response"
  shows "\<exists>n\<ge>polls. \<not> reply_creating (b n)"
proof -
  let ?P = "\<lambda>b polls (clock :: nat) response (y :: (py_error + batch_get_response) \<times> nat \<times> nat).
              still_creating response \<longrightarrow> (\<exists>n\<ge>polls. \<not> reply_creating (b n))"
  have "?P b polls clock response y"
  proof (rule wait_collection_loop.raw_induct[where P = ?P, OF _ ret], goal_cases)
    case (1 loop b polls clock response y)
    show ?case
    proof
      assume "still_creating response"
      then obtain d where d: "list_item (collectionDetails response) 0 = Inr d" "cd_status d = ''CREATING''"
        using still_creating_item by blast
      show "\<exists>n\<ge>polls. \<not> reply_creating (b n)"
      proof (cases "b polls")
        case (Inl e)
        then have "polls \<le> polls \<and> \<not> reply_creating (b polls)" by (simp add: reply_creating_def)
        then show ?thesis by (rule exI)
      next
        case (Inr r')
        show ?thesis
        proof (cases "still_creating r'")
          case False
          with Inr have "polls \<le> polls \<and> \<not> reply_creating (b polls)" by (simp add: reply_creating_def)
          then show ?thesis by (rule exI)
        next
          case True
          from 1(2) d Inr have "loop b (Suc polls) (interactive_sleep 30 clock) r' = Some y" by simp
          from 1(1)[OF this] True have "\<exists>n\<ge>Suc polls. \<not> reply_creating (b n)" by simp
          then obtain n where "Suc polls \<le> n" "\<not> reply_creating (b n)" by auto
          then have "polls \<le> n \<and> \<not> reply_creating (b n)" by simp
          then show ?thesis by (rule exI)
        qed
      qed
    qed
  qed
  with sc show ?thesis by simp
qed

lemma wait_for_collection_never:
  assumes "\<forall>n. reply_creating (b n)"
  shows "wait_for_collection b = None"
proof -
  from assms have "reply_creating (b 0)" by blast
  then obtain r where r: "b 0 = Inr r" "still_creating r"
    by (cases "b 0") (simp_all add: reply_creating_def)
  have "wait_collection_loop b 1 0 r = None"
  proof (cases "wait_collection_loop b 1 0 r")
    case None
    then show ?thesis .
  next
    case (Some y)
    from wait_collection_loop_returns_only_if[OF Some r(2)] assms show ?thesis by auto
  qed
  with r show ?thesis by (simp add: wait_for_collection_def)
qed

lemma wait_collection_loop_returns:
  "still_creating response \<Longrightarrow> \<forall>n<k. reply_creating (b (polls + n)) \<Longrightarrow> \<not> reply_creating (b (polls + k)) \<Longrightarrow>
   wait_collection_loop b polls clock response =
     Some (poll_outcome (b (polls + k)), Suc (polls + k), clock + 30 * Suc k)"
proof (induction k arbitrary: polls clock response)
  case 0
  from still_creating_item[OF "0.prems"(1)] obtain d where
    d: "list_item (collectionDetails response) 0 = Inr d" "cd_status d = ''CREATING''" by blast
  show ?case
  proof (cases "b polls")
    case (Inl e)
    with d show ?thesis
      by (subst wait_collection_loop.simps) (simp add: poll_outcome_def interactive_sleep_def)
  next
    case (Inr r')
    with "0.prems"(3) have nc: "\<not> still_creating r'" by (simp add: reply_creating_def)
    have "wait_collection_loop b (Suc polls) (interactive_sleep 30 clock) r' =
          Some (poll_outcome (Inr r'), Suc polls, clock + 30)"
      using nc
      by (subst wait_collection_loop.simps)
         (cases "collectionDetails r'";
          simp add: still_creating_def list_item_def poll_outcome_def interactive_sleep_def)
    with d Inr show ?thesis
      by (subst wait_collection_loop.simps) simp
  qed
next
  case (Suc k)
  from still_creating_item[OF Suc.prems(1)] obtain d where
    d: "list_item (collectionDetails response) 0 = Inr d" "cd_status d = ''CREATING''" by blast
  from Suc.prems(2) have "reply_creating (b (polls + 0))" by blast
  then obtain r' where r': "b polls = Inr r'" "still_creating r'"
    by (cases "b polls") (simp_all add: reply_creating_def)
  have a: "\<forall>n<k. reply_creating (b (Suc polls + n))"
    using Suc.prems(2) by (metis Suc_less_eq add_Suc_shift)
  have c: "\<not> reply_creating (b (Suc polls + k))" using Suc.prems(3) by simp
  have "wait_collection_loop b (Suc polls) (interactive_sleep 30 clock) r' =
        Some (poll_outcome (b (Suc polls + k)), Suc (Suc polls + k), interactive_sleep 30 clock + 30 * Suc k)"
    by (rule Suc.IH[OF r'(2) a c])
  with d r' show ?case
    by (subst wait_collection_loop.simps) (simp add: interactive_sleep_def)
qed

lemma wait_for_collection_returns:
  assumes "\<forall>n<k. reply_creating (b n)" "\<not> reply_creating (b k)"
  shows "wait_for_collection b = Some (poll_outcome (b k), Suc k, 30 * k)"
proof (cases k)
  case 0
  show ?thesis
  proof (cases "b 0")
    case (Inl e)
    with 0 show ?thesis by (simp add: wait_for_collection_def poll_outcome_def)
  next
    case (Inr r)
    with assms(2) 0 have nc: "\<not> still_creating r" by (simp add: reply_creating_def)
    have "wait_collection_loop b 1 0 r = Some (poll_outcome (Inr r), 1, 0)"
      using nc
      by (subst wait_collection_loop.simps)
         (cases "collectionDetails r"; simp add: still_creating_def list_item_def poll_outcome_def)
    with Inr 0 show ?thesis by (simp add: wait_for_collection_def)
  qed
next
  case (Suc j)
  from assms(1) Suc have "reply_creating (b 0)" by blast
  then obtain r where r: "b 0 = Inr r" "still_creating r"
    by (cases "b 0") (simp_all add: reply_creating_def)
  have a: "\<forall>n<j. reply_creating (b (1 + n))" using assms(1) Suc by simp
  have c: "\<not> reply_creating (b (1 + j))" using assms(2) Suc by simp
  from wait_collection_loop_returns[OF r(2) a c, of 0] r Suc show ?thesis
    by (simp add: wait_for_collection_def)
qed

text \<open>
  C1, as stated, fails: against a service whose collection never leaves \<open>CREATING\<close> the
  cell does not terminate with a timeout error; it never returns at all.
\<close>

theorem collection_wait_never_times_out:
  "wait_for_collection stuck_collection_backend = None"
  by (rule wait_for_collection_never)
     (simp add: stuck_collection_backend_def creating_response_def reply_creating_def still_creating_def)

text \<open>
  C1, amended. The collection wait has no wait budget and no timeout error. It polls
  every 30 seconds for as long as the reported status is \<open>CREATING\<close>: against a service
  that never leaves \<open>CREATING\<close> it never returns, and against a service whose \<open>k\<close>-th
  poll is the first not to report \<open>CREATING\<close> it returns that poll's outcome after
  \<open>k + 1\<close> calls and \<open>30 * k\<close> seconds, however large \<open>k\<close> is.
\<close>

theorem collection_wait_unbounded:
  "((\<forall>n. reply_creating (b n)) \<longrightarrow> wait_for_collection b = None) \<and>
   ((\<forall>n<k. reply_creating (b n)) \<and> \<not> reply_creating (b k) \<longrightarrow>
      wait_for_collection b = Some (poll_outcome (b k), Suc k, 30 * k))"
  using wait_for_collection_never[of b] wait_for_collection_returns[of k b] by blast

theorem collection_wait_unbounded_witness:
  "wait_for_collection stuck_collection_backend = None \<and>
   wait_for_collection slow_collection_backend = Some (Inr active_response, 4, 90)"
  using collection_wait_unbounded[of stuck_collection_backend 0]
    collection_wait_unbounded[of slow_collection_backend 3]
  by (simp add: stuck_collection_backend_def slow_collection_backend_def creating_response_def
      active_response_def reply_creating_def still_creating_def poll_outcome_def)

subsection \<open>The ingestion wait\<close>

lemma ingestion_loop_result:
  assumes ret: "ingestion_loop g polls clock job = Some y"
  shows "(\<forall>job'. fst y = Inr job' \<longrightarrow> job_status job' = ''COMPLETE'') \<and>
         (job_status job \<noteq> ''COMPLETE'' \<longrightarrow> (\<exists>n\<ge>polls. \<not> reply_pending (g n)))"
proof -
  let ?P = "\<lambda>g polls (clock :: nat) job (y :: (py_error + ingestion_job) \<times> nat \<times> nat).
              (\<forall>job'. fst y = Inr job' \<longrightarrow> job_status job' = ''COMPLETE'') \<and>
              (job_status job \<noteq> ''COMPLETE'' \<longrightarrow> (\<exists>n\<ge>polls. \<not> reply_pending (g n)))"
  show "?P g polls clock job y"
  proof (rule ingestion_loop.raw_induct[where P = ?P, OF _ ret], goal_cases)
    case (1 loop g polls clock job y)
    show ?case
    proof (cases "job_status job = ''COMPLETE''")
      case True
      with 1(2) show ?thesis by auto
    next
      case False
      show ?thesis
      proof (cases "g polls")
        case (Inl e)
        then have "polls \<le> polls \<and> \<not> reply_pending (g polls)" by (simp add: reply_pending_def)
        then have "\<exists>n\<ge>polls. \<not> reply_pending (g n)" by (rule exI)
        moreover from 1(2) False Inl have "fst y = Inl e" by auto
        ultimately show ?thesis by simp
      next
        case (Inr job')
        from 1(2) False Inr have rec: "loop g (Suc polls) (interactive_sleep 30 clock) job' = Some y" by simp
        note ih = 1(1)[OF rec]
        have "\<exists>n\<ge>polls. \<not> reply_pending (g n)"
        proof (cases "job_status job' = ''COMPLETE''")
          case True
          with Inr have "polls \<le> polls \<and> \<not> reply_pending (g polls)" by (simp add: reply_pending_def)
          then show ?thesis by (rule exI)
        next
          case False
          with ih have "\<exists>n\<ge>Suc polls. \<not> reply_pending (g n)" by simp
          then obtain n where "Suc polls \<le> n" "\<not> reply_pending (g n)" by auto
          then have "polls \<le> n \<and> \<not> reply_pending (g n)" by simp
          then show ?thesis by (rule exI)
        qed
        with ih show ?thesis by simp
      qed
    qed
  qed
qed

lemma ingestion_cells_complete:
  assumes "ingestion_cells start g = Some (Inr job, polls, clock)"
  shows "job_status job = ''COMPLETE''"
proof (cases start)
  case (Inl e)
  with assms show ?thesis by (simp add: ingestion_cells_def)
next
  case (Inr job0)
  with assms have "ingestion_loop g 0 0 job0 = Some (Inr job, polls, clock)"
    by (simp add: ingestion_cells_def)
  from ingestion_loop_result[OF this] show ?thesis by simp
qed

lemma ingestion_cells_never:
  assumes "start = Inr job0" "job_status job0 \<noteq> ''COMPLETE''" "\<forall>n. reply_pending (g n)"
  shows "ingestion_cells start g = None"
proof (cases "ingestion_loop g 0 0 job0")
  case None
  with assms(1) show ?thesis by (simp add: ingestion_cells_def)
next
  case (Some y)
  from ingestion_loop_result[OF Some] assms(2,3) show ?thesis by auto
qed

lemma ingestion_loop_returns:
  "job_status job \<noteq> ''COMPLETE'' \<Longrightarrow> \<forall>n<k. reply_pending (g (polls + n)) \<Longrightarrow>
   g (polls + k) = Inr done \<Longrightarrow> job_status done = ''COMPLETE'' \<Longrightarrow>
   ingestion_loop g polls clock job = Some (Inr done, Suc (polls + k), clock + 30 * Suc k)"
proof (induction k arbitrary: polls clock job)
  case 0
  have "ingestion_loop g (Suc polls) (interactive_sleep 30 clock) done = Some (Inr done, Suc polls, clock + 30)"
    using "0.prems"(4) by (subst ingestion_loop.simps) (simp add: interactive_sleep_def)
  with "0.prems"(1,3) show ?case by (subst ingestion_loop.simps) simp
next
  case (Suc k)
  from Suc.prems(2) have "reply_pending (g (polls + 0))" by blast
  then obtain job' where j: "g polls = Inr job'" "job_status job' \<noteq> ''COMPLETE''"
    by (cases "g polls") (simp_all add: reply_pending_def)
  have a: "\<forall>n<k. reply_pending (g (Suc polls + n))"
    using Suc.prems(2) by (metis Suc_less_eq add_Suc_shift)
  have c: "g (Suc polls + k) = Inr done" using Suc.prems(3) by simp
  have "ingestion_loop g (Suc polls) (interactive_sleep 30 clock) job' =
        Some (Inr done, Suc (Suc polls + k), interactive_sleep 30 clock + 30 * Suc k)"
    by (rule Suc.IH[OF j(2) a c Suc.prems(4)])
  with Suc.prems(1) j show ?case
    by (subst ingestion_loop.simps) (simp add: interactive_sleep_def)
qed

text \<open>
  C2, as stated, fails: a job that reaches \<open>FAILED\<close> (and stays there, the state being
  terminal) does not end the wait with an error carrying the failure reason; the cell
  never returns.
\<close>

theorem ingestion_failed_never_surfaces:
  "ingestion_cells (Inr (job_in_state ''STARTING'' [])) failing_job_backend = None"
  by (rule ingestion_cells_never[where ?job0.0 = "job_in_state ''STARTING'' []"])
     (simp_all add: failing_job_backend_def job_in_state_def reply_pending_def)

text \<open>
  C2, amended. The ingestion wait has a single exit: it returns a job only when a polled
  status is \<open>COMPLETE\<close> (the first such poll, after one 30-second sleep per poll), and
  every other status, \<open>FAILED\<close> included, keeps it polling: while no poll reports
  \<open>COMPLETE\<close> and none raises, it never returns and surfaces no failure reason.
\<close>

theorem ingestion_wait_exits_on_complete_only:
  "(ingestion_cells start g = Some (Inr job, polls, clock) \<longrightarrow> job_status job = ''COMPLETE'') \<and>
   (start = Inr job0 \<and> job_status job0 \<noteq> ''COMPLETE'' \<and> (\<forall>n. reply_pending (g n)) \<longrightarrow>
      ingestion_cells start g = None) \<and>
   (start = Inr job0 \<and> job_status job0 \<noteq> ''COMPLETE'' \<and> (\<forall>n<k. reply_pending (g n)) \<and>
    g k = Inr done \<and> job_status done = ''COMPLETE'' \<longrightarrow>
      ingestion_cells start g = Some (Inr done, Suc k, 30 * Suc k))"
proof (intro conjI impI)
  assume "ingestion_cells start g = Some (Inr job, polls, clock)"
  then show "job_status job = ''COMPLETE''" by (rule ingestion_cells_complete)
next
  assume h: "start = Inr job0 \<and> job_status job0 \<noteq> ''COMPLETE'' \<and> (\<forall>n. reply_pending (g n))"
  show "ingestion_cells start g = None"
    by (rule ingestion_cells_never[of start job0 g]) (simp_all add: h)
next
  assume h: "start = Inr job0 \<and> job_status job0 \<noteq> ''COMPLETE'' \<and> (\<forall>n<k. reply_pending (g n)) \<and>
    g k = Inr done \<and> job_status done = ''COMPLETE''"
  then have "ingestion_loop g 0 0 job0 = Some (Inr done, Suc (0 + k), 0 + 30 * Suc k)"
    by (intro ingestion_loop_returns) simp_all
  with h show "ingestion_cells start g = Some (Inr done, Suc k, 30 * Suc k)"
    by (simp add: ingestion_cells_def)
qed

theorem ingestion_wait_exits_on_complete_only_witness:
  "ingestion_cells (Inr (job_in_state ''STARTING'' [])) hanging_job_backend = None \<and>
   ingestion_cells (Inr (job_in_state ''STARTING'' [])) completing_job_backend =
     Some (Inr (job_in_state ''COMPLETE'' []), 3, 90) \<and>
   job_status (job_in_state ''COMPLETE'' []) = ''COMPLETE''"
proof -
  let ?start = "Inr (job_in_state ''STARTING'' []) :: py_error + ingestion_job"
  have a: "ingestion_cells ?start hanging_job_backend = None"
    using ingestion_wait_exits_on_complete_only[of ?start hanging_job_backend _ _ _ "job_in_state ''STARTING'' []"]
    by (simp add: hanging_job_backend_def job_in_state_def reply_pending_def)
  have b: "ingestion_cells ?start completing_job_backend = Some (Inr (job_in_state ''COMPLETE'' []), 3, 90)"
    using ingestion_wait_exits_on_complete_only[of ?start completing_job_backend _ _ _
        "job_in_state ''STARTING'' []" 2 "job_in_state ''COMPLETE'' []"]
    by (simp add: completing_job_backend_def job_in_state_def reply_pending_def)
  from b have c: "job_status (job_in_state ''COMPLETE'' []) = ''COMPLETE''"
    using ingestion_wait_exits_on_complete_only[of ?start completing_job_backend "job_in_state ''COMPLETE'' []" 3 90]
    by simp
  from a b c show ?thesis by simp
qed

subsection \<open>Existence checks of the provisioning cells\<close>










subsection \<open>Retrieval: search mode, order and length\<close>

lemma get_contexts_loop_map: "get_contexts_loop acc rs = acc @ map content_text rs"
  by (induction rs arbitrary: acc) simp_all

lemma get_contexts_map: "get_contexts rs = map content_text rs"
  by (simp add: get_contexts_def get_contexts_loop_map)

text \<open>
  C5, as stated, fails: \<open>retrieve\<close> has three parameters (query, knowledge base, number
  of results) and none for the search mode; a caller who wants \<open>SEMANTIC\<close> or \<open>AUTO\<close>
  search gets a request that carries neither.
\<close>

theorem search_mode_is_not_a_parameter:
  "overrideSearchType (retrieve_request_of ''What is Amazon S3?'' ''KB1'' (Some 5)) \<noteq> ''SEMANTIC'' \<and>
   overrideSearchType (retrieve_request_of ''What is Amazon S3?'' ''KB1'' (Some 5)) \<noteq> ''AUTO''"
  by (simp add: retrieve_request_of_def)

text \<open>
  C5, amended. The search mode is a constant of each retrieval path, not an argument:
  \<open>retrieve\<close> makes its one external call with \<open>overrideSearchType = HYBRID\<close> for every
  query, knowledge base and result count (5 when omitted), and the LangChain retriever
  is configured with \<open>SEMANTIC\<close> and 4 results.
\<close>

theorem search_mode_is_fixed:
  "retrieve client query kbId n = client (retrieve_request_of query kbId n) \<and>
   overrideSearchType (retrieve_request_of query kbId n) = ''HYBRID'' \<and>
   retrievalQuery_text (retrieve_request_of query kbId n) = query \<and>
   knowledgeBaseId (retrieve_request_of query kbId n) = kbId \<and>
   numberOfResults (retrieve_request_of query kbId (Some k)) = k \<and>
   numberOfResults (retrieve_request_of query kbId None) = 5 \<and>
   overrideSearchType (langchain_retriever_request query kbId) = ''SEMANTIC'' \<and>
   numberOfResults (langchain_retriever_request query kbId) = 4"
  by (simp add: retrieve_def retrieve_request_of_def langchain_retriever_request_def)

text \<open>
  C6, as stated, fails in its length bound: the code never truncates, so a service that
  answers a request for 2 results with 3 passages gets all 3 returned.
\<close>

theorem result_count_is_not_enforced:
  "retrieve_contexts fixed_three_client ''What is Amazon S3?'' ''KB1'' (Some 2) = Inr [''P1'', ''P2'', ''P3''] \<and>
   \<not> int (length [''P1'', ''P2'', ''P3'' :: string]) \<le> numberOfResults (retrieve_request_of ''What is Amazon S3?'' ''KB1'' (Some 2))"
  by (simp add: retrieve_contexts_def retrieve_def fixed_three_client_def three_passages_def
      get_contexts_map passage_def retrieve_request_of_def)

text \<open>
  C6, amended. \<open>retrieve\<close> returns the service's response unchanged, and the extracted
  passage texts are the texts of the service's results in the service's order, with
  nothing inserted, removed or re-sorted; so the sequence has exactly the length of the
  service's answer, which is at most \<open>numberOfResults\<close> whenever the service honours the
  count it was sent. An answer with zero matches yields the empty sequence, not an
  error; an exception of the service propagates.
\<close>

theorem retrieval_preserves_service_order:
  "(client (retrieve_request_of query kbId n) = Inr response \<longrightarrow>
      retrieve client query kbId n = Inr response \<and>
      retrieve_contexts client query kbId n = Inr (map content_text (retrievalResults response)) \<and>
      length (get_contexts (retrievalResults response)) = length (retrievalResults response) \<and>
      (int (length (retrievalResults response)) \<le> numberOfResults (retrieve_request_of query kbId n) \<longrightarrow>
         int (length (get_contexts (retrievalResults response))) \<le> numberOfResults (retrieve_request_of query kbId n)) \<and>
      (retrievalResults response = [] \<longrightarrow> retrieve_contexts client query kbId n = Inr [])) \<and>
   (client (retrieve_request_of query kbId n) = Inl e \<longrightarrow> retrieve_contexts client query kbId n = Inl e)"
  by (simp add: retrieve_contexts_def retrieve_def get_contexts_map)

theorem retrieval_preserves_service_order_witness:
  "retrieve_contexts honest_client ''What is Amazon S3?'' ''KB1'' (Some 3) = Inr [''P1'', ''P2'', ''P3''] \<and>
   map score (retrievalResults three_passages) = [9 / 10, 7 / 10, 1 / 2] \<and>
   length (get_contexts (retrievalResults three_passages)) = 3 \<and>
   retrieve_contexts empty_client ''What is Amazon S3?'' ''KB1'' (Some 3) = Inr []"
  using retrieval_preserves_service_order[of honest_client "''What is Amazon S3?''" "''KB1''" "Some 3"
      three_passages "ClientError ''x''"]
    retrieval_preserves_service_order[of empty_client "''What is Amazon S3?''" "''KB1''" "Some 3"
      "\<lparr> retrievalResults = [] \<rparr>" "ClientError ''x''"]
  by (simp add: honest_client_def empty_client_def three_passages_def passage_def retrieve_request_of_def)

subsection \<open>Generation: the requests behind the one call\<close>










subsection \<open>The prompt and its second substitution\<close>

lemma format_loop_literal:
  "brace_free pre \<Longrightarrow> format_loop args st out (pre @ rest) = format_loop args st (out @ pre) rest"
  by (induction pre arbitrary: out) (simp_all add: brace_free_def is_brace_def)

lemma py_format_brace_free: "brace_free s \<Longrightarrow> py_format s args = Returns s"
  using format_loop_literal[of s args "(ANS_INIT, 0)" "[]" "[]"] by (simp add: py_format_def)

lemma prompt_parts_brace_free: "brace_free prompt_head" "brace_free prompt_middle" "brace_free prompt_tail"
  by (simp_all add: brace_free_def is_brace_def prompt_head_def prompt_middle_def prompt_tail_def)

lemma brace_free_append: "brace_free (a @ b) \<longleftrightarrow> brace_free a \<and> brace_free b"
  by (simp add: brace_free_def)

lemma hex_digit_in: "n < 16 \<Longrightarrow> hex_digit n \<in> set ''0123456789abcdef''"
  unfolding hex_digit_def by (rule nth_mem) simp

lemma hex_digit_not_brace: "n < 16 \<Longrightarrow> \<not> is_brace (hex_digit n)"
  using hex_digit_in[of n] by (auto simp: is_brace_def)

lemma of_char_div16: "(of_char c :: nat) div 16 < 16"
proof -
  have "(of_char c :: nat) < 16 * 16" by simp
  then show ?thesis by (rule less_mult_imp_div_less)
qed

lemma filter_brace_hex_escape: "filter is_brace (hex_escape c) = []"
  using hex_digit_not_brace[of "of_char c div 16"] hex_digit_not_brace[of "of_char c mod 16"] of_char_div16[of c]
  by (simp add: hex_escape_def is_brace_def backslash_def)

lemma not_brace_escapes:
  "\<not> is_brace backslash" "\<not> is_brace (CHR ''t'')" "\<not> is_brace (CHR ''n'')" "\<not> is_brace (CHR ''r'')"
  by (simp_all add: is_brace_def backslash_def)

lemma repr_char_brace:
  assumes "\<not> is_brace q" "is_brace c"
  shows "repr_char q c = [c]"
proof -
  from assms(2) consider "c = CHR ''{''" | "c = CHR ''}''" by (auto simp: is_brace_def)
  then show ?thesis
  proof cases
    case 1
    with assms(1) have "c \<noteq> q" by (auto simp: is_brace_def)
    with 1 show ?thesis by (simp add: repr_char_def backslash_def py_printable_def)
  next
    case 2
    with assms(1) have "c \<noteq> q" by (auto simp: is_brace_def)
    with 2 show ?thesis by (simp add: repr_char_def backslash_def py_printable_def)
  qed
qed

lemma filter_brace_repr_char:
  assumes "\<not> is_brace q"
  shows "filter is_brace (repr_char q c) = (if is_brace c then [c] else [])"
proof (cases "is_brace c")
  case True
  with assms show ?thesis by (simp add: repr_char_brace)
next
  case False
  then show ?thesis
    unfolding repr_char_def
    by (simp add: filter_brace_hex_escape not_brace_escapes)
qed

lemma filter_brace_concat_repr:
  "\<not> is_brace q \<Longrightarrow> filter is_brace (concat (map (repr_char q) s)) = filter is_brace s"
  by (induction s) (simp_all add: filter_brace_repr_char)

lemma filter_brace_py_repr: "filter is_brace (py_repr s) = filter is_brace s"
  by (simp add: py_repr_def Let_def filter_brace_concat_repr is_brace_def single_quote_def double_quote_def)

lemma filter_brace_py_join:
  "\<not> (\<exists>c\<in>set sep. is_brace c) \<Longrightarrow> filter is_brace (py_join sep xs) = filter is_brace (concat xs)"
  by (induction sep xs rule: py_join.induct) (simp_all add: filter_empty_conv)

lemma concat_map_filter_repr:
  "filter is_brace (concat (map py_repr xs)) = filter is_brace (concat xs)"
  by (induction xs) (simp_all add: filter_brace_py_repr)

lemma filter_brace_py_str_list: "filter is_brace (py_str_list xs) = filter is_brace (concat xs)"
  by (simp add: py_str_list_def filter_brace_py_join concat_map_filter_repr is_brace_def)

lemma brace_free_filter: "brace_free s \<longleftrightarrow> filter is_brace s = []"
  by (simp add: brace_free_def filter_empty_conv list_all_iff)

lemma brace_free_py_str_list: "brace_free (py_str_list xs) \<longleftrightarrow> brace_free (concat xs)"
  by (simp add: brace_free_filter filter_brace_py_str_list)

lemma brace_count_prompt: "brace_count (prompt contexts query) = brace_count (concat contexts) + brace_count query"
  using prompt_parts_brace_free
  by (simp add: brace_count_def prompt_def filter_brace_py_str_list brace_free_filter)

lemma message_text_unchanged:
  "brace_free (concat contexts) \<Longrightarrow> brace_free query \<Longrightarrow>
   message_text contexts query = Returns (prompt contexts query)"
  unfolding message_text_def
  by (rule py_format_brace_free)
     (simp add: prompt_def brace_free_append prompt_parts_brace_free brace_free_py_str_list)

lemma scan_format_spec_brace_free:
  "brace_free input \<Longrightarrow> scan_format_spec k spec input = Inl ValueError"
  by (induction input arbitrary: k spec) (simp_all add: brace_free_def is_brace_def)

lemma scan_field_name_brace_free:
  "brace_free input \<Longrightarrow>
   scan_field_name b name input = Inl ValueError \<or>
   (\<exists>n c r. scan_field_name b name input = Inr (n, c, r) \<and> (c = CHR '':'' \<or> c = CHR ''!'') \<and> brace_free r)"
proof (induction input arbitrary: b name)
  case Nil
  then show ?case by simp
next
  case (Cons a input)
  from Cons.prems have a: "a \<noteq> CHR ''{''" "a \<noteq> CHR ''}''" and bf: "brace_free input"
    by (simp_all add: brace_free_def is_brace_def)
  show ?case
  proof (cases b)
    case True
    with Cons.IH[OF bf, of "a \<noteq> CHR '']''" "name @ [a]"] show ?thesis by simp
  next
    case False
    show ?thesis
    proof (cases "a = CHR ''[''")
      case True
      with False a Cons.IH[OF bf, of True "name @ [a]"] show ?thesis by simp
    next
      case nb: False
      show ?thesis
      proof (cases "a = CHR '':'' \<or> a = CHR ''!''")
        case True
        with False a nb bf show ?thesis by auto
      next
        case nt: False
        with False a nb Cons.IH[OF bf, of False "name @ [a]"] show ?thesis by simp
      qed
    qed
  qed
qed

lemma parse_field_brace_free:
  assumes "brace_free input"
  shows "parse_field input = Inl ValueError"
proof -
  from scan_field_name_brace_free[OF assms, of False "[]"]
  consider "scan_field_name False [] input = Inl ValueError"
    | n r where "scan_field_name False [] input = Inr (n, CHR '':'', r)" "brace_free r"
    | n r where "scan_field_name False [] input = Inr (n, CHR ''!'', r)" "brace_free r"
    by blast
  then show ?thesis
  proof cases
    case 1
    then show ?thesis by (simp add: parse_field_def)
  next
    case 2
    then show ?thesis by (simp add: parse_field_def scan_format_spec_brace_free)
  next
    case 3
    show ?thesis
    proof (cases r)
      case Nil
      with 3 show ?thesis by (simp add: parse_field_def)
    next
      case (Cons conversion rest1)
      show ?thesis
      proof (cases rest1)
        case Nil
        with 3 Cons show ?thesis by (simp add: parse_field_def)
      next
        case (Cons c2 rest2)
        with 3(2) \<open>r = conversion # rest1\<close> have "c2 \<noteq> CHR ''}''" "brace_free rest2"
          by (simp_all add: brace_free_def is_brace_def)
        with 3(1) \<open>r = conversion # rest1\<close> Cons show ?thesis
          by (simp add: parse_field_def scan_format_spec_brace_free)
      qed
    qed
  qed
qed

lemma format_loop_lone_brace:
  assumes "is_brace b" "brace_free z" "z \<noteq> []"
  shows "format_loop args st out (b # z) = Raises ValueError"
proof -
  from assms(3) obtain d ds where z: "z = d # ds" by (cases z) auto
  with assms(2) have d: "d \<noteq> CHR ''{''" "d \<noteq> CHR ''}''"
    by (simp_all add: brace_free_def is_brace_def)
  from assms(1) consider "b = CHR ''}''" | "b = CHR ''{''" by (auto simp: is_brace_def)
  then show ?thesis
  proof cases
    case 1
    with z d show ?thesis by simp
  next
    case 2
    have "parse_field (d # ds) = Inl ValueError"
      using assms(2) z by (simp add: parse_field_brace_free)
    with 2 z d show ?thesis by simp
  qed
qed

lemma filter_singleton_split:
  "length (filter P xs) = 1 \<Longrightarrow> \<exists>us x vs. xs = us @ x # vs \<and> P x \<and> filter P us = [] \<and> filter P vs = []"
proof (induction xs)
  case Nil
  then show ?case by simp
next
  case (Cons a xs)
  show ?case
  proof (cases "P a")
    case True
    with Cons.prems have "filter P xs = []" by simp
    with True have "a # xs = [] @ a # xs \<and> P a \<and> filter P [] = [] \<and> filter P xs = []" by simp
    then show ?thesis by blast
  next
    case False
    with Cons.prems have "length (filter P xs) = 1" by simp
    from Cons.IH[OF this] obtain us x vs where
      h: "xs = us @ x # vs" "P x" "filter P us = []" "filter P vs = []" by blast
    with False have "a # xs = (a # us) @ x # vs \<and> P x \<and> filter P (a # us) = [] \<and> filter P vs = []" by simp
    then show ?thesis by blast
  qed
qed

lemma py_format_one_brace:
  assumes "brace_count s = 1" "s \<noteq> []" "\<not> is_brace (last s)"
  shows "py_format s args = Raises ValueError"
proof -
  from filter_singleton_split[of is_brace s] assms(1) obtain us x vs where
    h: "s = us @ x # vs" "is_brace x" "filter is_brace us = []" "filter is_brace vs = []"
    by (auto simp: brace_count_def)
  then have bf: "brace_free us" "brace_free vs" by (simp_all add: brace_free_filter)
  have "vs \<noteq> []"
  proof
    assume "vs = []"
    with h(1) have "last s = x" by simp
    with h(2) assms(3) show False by simp
  qed
  from format_loop_lone_brace[OF h(2) bf(2) this] format_loop_literal[OF bf(1), of args "(ANS_INIT, 0)" "[]" "x # vs"] h(1)
  show ?thesis by (simp add: py_format_def)
qed

lemma prompt_last: "prompt contexts query \<noteq> [] \<and> last (prompt contexts query) = CHR '':''"
  by (simp add: prompt_def prompt_tail_def)

lemma message_text_one_brace:
  assumes "brace_count (concat contexts) + brace_count query = 1"
  shows "message_text contexts query = Raises ValueError"
  unfolding message_text_def
  using assms prompt_last[of contexts query]
  by (intro py_format_one_brace) (simp_all add: brace_count_prompt is_brace_def)























lemma message_text_split:
  assumes "brace_free (concat contexts)"
  shows "message_text contexts query =
           format_loop [PyList contexts, PyStr query] (ANS_INIT, 0)
             (prompt_head @ py_str_list contexts @ prompt_middle) (query @ prompt_tail)"
proof -
  have pre: "brace_free (prompt_head @ py_str_list contexts @ prompt_middle)"
    using assms by (simp add: brace_free_append prompt_parts_brace_free brace_free_py_str_list)
  have "message_text contexts query =
          format_loop [PyList contexts, PyStr query] (ANS_INIT, 0) []
            ((prompt_head @ py_str_list contexts @ prompt_middle) @ (query @ prompt_tail))"
    by (simp add: message_text_def py_format_def prompt_def)
  also have "\<dots> = format_loop [PyList contexts, PyStr query] (ANS_INIT, 0)
            ([] @ (prompt_head @ py_str_list contexts @ prompt_middle)) (query @ prompt_tail)"
    by (rule format_loop_literal[OF pre])
  finally show ?thesis by simp
qed

lemma format_loop_tail:
  "format_loop args st out prompt_tail = Returns (out @ prompt_tail)"
  using format_loop_literal[OF prompt_parts_brace_free(3), of args st out "[]"] by simp

lemma message_text_auto_field:
  assumes "brace_free (concat contexts)"
  shows "message_text contexts ''{}'' = Returns (prompt contexts (py_str_list contexts))"
proof -
  have "format_loop [PyList contexts, PyStr ''{}''] (ANS_INIT, 0)
          (prompt_head @ py_str_list contexts @ prompt_middle) (''{}'' @ prompt_tail) =
        format_loop [PyList contexts, PyStr ''{}''] (ANS_AUTO, 1)
          ((prompt_head @ py_str_list contexts @ prompt_middle) @ py_str_list contexts) prompt_tail"
    by (simp add: parse_field_def render_field_def get_integer_def)
  then show ?thesis
    by (simp add: message_text_split[OF assms] format_loop_tail prompt_def)
qed

lemma message_text_escaped_brace:
  assumes "brace_free (concat contexts)"
  shows "message_text contexts ''{{'' = Returns (prompt contexts ''{'')"
proof -
  have "format_loop [PyList contexts, PyStr ''{{''] (ANS_INIT, 0)
          (prompt_head @ py_str_list contexts @ prompt_middle) (''{{'' @ prompt_tail) =
        format_loop [PyList contexts, PyStr ''{{''] (ANS_INIT, 0)
          ((prompt_head @ py_str_list contexts @ prompt_middle) @ ''{'') prompt_tail"
    by simp
  then show ?thesis
    by (simp add: message_text_split[OF assms] format_loop_tail prompt_def)
qed

lemma get_integer_one: "get_integer ''1'' = Some 1"
  by (simp add: get_integer_def is_digit_def)

lemma message_text_self_field:
  assumes "brace_free (concat contexts)"
  shows "message_text contexts ''{1}'' = Returns (prompt contexts ''{1}'')"
proof -
  have "format_loop [PyList contexts, PyStr ''{1}''] (ANS_INIT, 0)
          (prompt_head @ py_str_list contexts @ prompt_middle) (''{1}'' @ prompt_tail) =
        format_loop [PyList contexts, PyStr ''{1}''] (ANS_MANUAL, 0)
          ((prompt_head @ py_str_list contexts @ prompt_middle) @ ''{1}'') prompt_tail"
    by (simp add: parse_field_def render_field_def get_integer_one)
  then show ?thesis
    by (simp add: message_text_split[OF assms] format_loop_tail prompt_def)
qed

lemma brace_free_examples: "brace_free (concat [''A'', ''B''])" "brace_free (concat [''A''])"
  by (simp_all add: brace_free_def is_brace_def)





text \<open>
  C10, as stated, fails in both halves. A query \<open>{}\<close> contains braces and raises
  nothing: the second substitution silently replaces it by the passage list. A query
  \<open>{1}\<close> contains braces, raises nothing, and the second substitution leaves the
  prompt unchanged, because the field is replaced by the query itself.
\<close>

theorem braces_need_not_raise:
  "message_text [''A''] ''{}'' = Returns (prompt [''A''] (py_str_list [''A''])) \<and>
   message_text [''A''] ''{1}'' = Returns (prompt [''A''] ''{1}'')"
  using message_text_auto_field[OF brace_free_examples(2)] message_text_self_field[OF brace_free_examples(2)]
  by simp

text \<open>
  C10, amended. The prompt that the f-string built is passed through a second
  substitution, \<open>prompt.format(contexts, query)\<close>. When neither the passages nor the
  query contain a brace, it returns the prompt unchanged. When they contain exactly one
  brace character, it raises \<open>ValueError\<close>, and the generation step ends there without
  sending a request. With more braces the outcome depends on how they read as format
  fields, and need not be an exception: with brace-free passages, a query \<open>{}\<close> is
  replaced by the passage list, \<open>{{\<close> becomes a single brace, and \<open>{1}\<close> is
  replaced by the query itself, which leaves the prompt unchanged.
\<close>

theorem second_substitution:
  "(brace_free (concat contexts) \<and> brace_free query \<longrightarrow>
      message_text contexts query = Returns (prompt contexts query)) \<and>
   (brace_count (concat contexts) + brace_count query = 1 \<longrightarrow>
      message_text contexts query = Raises ValueError \<and>
      generation_step invoke_model contexts query = Raises ValueError) \<and>
   (brace_free (concat contexts) \<longrightarrow>
      message_text contexts ''{}'' = Returns (prompt contexts (py_str_list contexts)) \<and>
      message_text contexts ''{{'' = Returns (prompt contexts ''{'') \<and>
      message_text contexts ''{1}'' = Returns (prompt contexts ''{1}''))"
  using message_text_unchanged[of contexts query] message_text_one_brace[of contexts query]
    message_text_auto_field[of contexts] message_text_escaped_brace[of contexts]
    message_text_self_field[of contexts]
  by (simp add: generation_step_def)

theorem second_substitution_witness:
  "message_text [''A'', ''B''] ''What is Amazon S3?'' = Returns (prompt [''A'', ''B''] ''What is Amazon S3?'') \<and>
   message_text [''A'', ''B''] ''What is {S3?'' = Raises ValueError \<and>
   generation_step answering_backend [''A'', ''B''] ''What is {S3?'' = Raises ValueError \<and>
   message_text [''A'', ''B''] ''{{'' = Returns (prompt [''A'', ''B''] ''{'')"
  using second_substitution[of "[''A'', ''B'']" "''What is Amazon S3?''" answering_backend]
    second_substitution[of "[''A'', ''B'']" "''What is {S3?''" answering_backend]
  by (simp add: brace_free_def brace_count_def is_brace_def)

subsection \<open>Chunking policy\<close>

text \<open>
  C8. The chunking policy that the notebook configures and sends with
  \<open>create_data_source\<close> (maxTokens 512, overlapPercentage 20) satisfies the invariant:
  its overlap fraction lies in \<open>[0, 1)\<close> and its maximum size is positive. The notebook
  accepts no other policy: the request is built from this constant alone.
\<close>

theorem chunking_policy_invariant:
  "chunking_invariant (ds_chunkingConfiguration (create_data_source_request name description kb_id bucket_name))
   \<and> maxTokens (fixedSizeChunkingConfiguration chunkingStrategyConfiguration) = 512
   \<and> overlap_fraction chunkingStrategyConfiguration = 1 / 5"
  by (simp add: chunking_invariant_def overlap_fraction_def create_data_source_request_def
      chunkingStrategyConfiguration_def)

subsection \<open>The download loop\<close>

lemma length_update_le: "length (AList.update k v al) \<le> Suc (length al)"
  by (induction al) auto

lemma download_loop_short:
  "length fnames < idx + length us \<Longrightarrow> idx \<le> length fnames \<Longrightarrow>
   \<exists>e dir'. download_loop f fnames idx us dir = (Inl e, dir') \<and>
            length dir' + idx \<le> length dir + length fnames"
proof (induction us arbitrary: idx dir)
  case Nil
  then show ?case by simp
next
  case (Cons u us)
  show ?case
  proof (cases "idx < length fnames")
    case False
    then show ?thesis using Cons.prems by (simp add: list_item_def)
  next
    case True
    show ?thesis
    proof (cases "f u (data_root @ fnames ! idx)")
      case (Inl e)
      with True show ?thesis by (simp add: list_item_def)
    next
      case (Inr x)
      from Cons.prems have "length fnames < Suc idx + length us" by simp
      moreover from True have "Suc idx \<le> length fnames" by simp
      ultimately obtain e dir' where
        h: "download_loop f fnames (Suc idx) us (AList.update (data_root @ fnames ! idx) u dir) = (Inl e, dir')"
           "length dir' + Suc idx \<le> length (AList.update (data_root @ fnames ! idx) u dir) + length fnames"
        using Cons.IH[of "Suc idx" "AList.update (data_root @ fnames ! idx) u dir"] by blast
      have "length (AList.update (data_root @ fnames ! idx) u dir) \<le> Suc (length dir)"
        by (rule length_update_le)
      with h True Inr show ?thesis by (simp add: list_item_def)
    qed
  qed
qed

lemma urls_length: "length urls = 16"
  by (simp add: urls_def)

lemma filenames_length: "length filenames = 14"
  by (simp add: filenames_def)

lemma download_cell_fails:
  "\<exists>e dir. download_cell f = (Inl e, dir) \<and> length dir \<le> 14"
  using download_loop_short[of filenames 0 urls f "[]"]
  by (simp add: download_cell_def urls_length filenames_length)

lemma update_fresh: "k \<notin> fst ` set al \<Longrightarrow> AList.update k v al = al @ [(k, v)]"
  by (induction al) auto

lemma download_loop_prefix:
  "k \<le> length us \<Longrightarrow> idx + k \<le> length fnames \<Longrightarrow> distinct (drop idx fnames) \<Longrightarrow>
   (\<forall>n \<in> set (drop idx fnames). data_root @ n \<notin> fst ` set dir) \<Longrightarrow>
   (\<forall>j<k. f (us ! j) (data_root @ fnames ! (idx + j)) = Inr ()) \<Longrightarrow>
   download_loop f fnames idx us dir =
     download_loop f fnames (idx + k) (drop k us)
       (dir @ zip (map ((@) data_root) (take k (drop idx fnames))) (take k us))"
proof (induction k arbitrary: idx us dir)
  case 0
  show ?case by simp
next
  case (Suc k)
  from Suc.prems(1) obtain u us' where us: "us = u # us'" by (cases us) auto
  from Suc.prems(2) have lt: "idx < length fnames" by simp
  then have dr: "drop idx fnames = fnames ! idx # drop (Suc idx) fnames"
    by (simp add: Cons_nth_drop_Suc)
  from Suc.prems(5)[rule_format, of 0] us have ok: "f u (data_root @ fnames ! idx) = Inr ()" by simp
  from Suc.prems(4) dr have fresh: "data_root @ fnames ! idx \<notin> fst ` set dir" by simp
  let ?dir = "dir @ [(data_root @ fnames ! idx, u)]"
  have step: "download_loop f fnames idx us dir = download_loop f fnames (Suc idx) us' ?dir"
    using us lt ok update_fresh[OF fresh] by (simp add: list_item_def)
  have 1: "k \<le> length us'" using Suc.prems(1) us by simp
  have 2: "Suc idx + k \<le> length fnames" using Suc.prems(2) by simp
  have 3: "distinct (drop (Suc idx) fnames)" using Suc.prems(3) dr by simp
  have 4: "\<forall>n \<in> set (drop (Suc idx) fnames). data_root @ n \<notin> fst ` set ?dir"
  proof
    fix n assume n: "n \<in> set (drop (Suc idx) fnames)"
    with Suc.prems(3) dr have "n \<noteq> fnames ! idx" by auto
    moreover from n dr Suc.prems(4) have "data_root @ n \<notin> fst ` set dir" by simp
    ultimately show "data_root @ n \<notin> fst ` set ?dir" by simp
  qed
  have 5: "\<forall>j<k. f (us' ! j) (data_root @ fnames ! (Suc idx + j)) = Inr ()"
  proof (intro allI impI)
    fix j assume "j < k"
    then have "Suc j < Suc k" by simp
    from Suc.prems(5)[rule_format, OF this] us show "f (us' ! j) (data_root @ fnames ! (Suc idx + j)) = Inr ()"
      by simp
  qed
  from Suc.IH[OF 1 2 3 4 5] step us dr show ?case by simp
qed

lemma filenames_distinct: "distinct filenames"
  by (simp add: filenames_def)

lemma download_cell_prefix:
  assumes "k \<le> 14" "\<forall>j<k. f (urls ! j) (data_root @ filenames ! j) = Inr ()"
  shows "download_cell f =
           download_loop f filenames k (drop k urls)
             (zip (map ((@) data_root) (take k filenames)) (take k urls))"
  using download_loop_prefix[of k urls 0 filenames "[]" f] assms filenames_distinct
  by (simp add: download_cell_def urls_length filenames_length)

lemma download_cell_index_error:
  assumes "\<forall>i<14. f (urls ! i) (data_root @ filenames ! i) = Inr ()"
  shows "download_cell f = (Inl IndexError, zip (map ((@) data_root) filenames) (take 14 urls))"
proof -
  have "drop 14 urls = [urls ! 14, urls ! 15]"
    by (simp add: urls_def)
  with download_cell_prefix[of 14 f] assms show ?thesis
    by (simp add: list_item_def filenames_length)
qed

lemma download_cell_first_failure:
  assumes "i < 14" "\<forall>j<i. f (urls ! j) (data_root @ filenames ! j) = Inr ()"
    "f (urls ! i) (data_root @ filenames ! i) = Inl e"
  shows "download_cell f = (Inl e, zip (map ((@) data_root) (take i filenames)) (take i urls))"
proof -
  from assms(1) have "drop i urls = urls ! i # drop (Suc i) urls"
    by (simp add: Cons_nth_drop_Suc urls_length)
  with download_cell_prefix[of i f] assms show ?thesis
    by (simp add: list_item_def filenames_length)
qed

lemma uploadDirectory_card: "card (uploadDirectory dir bucket_name) \<le> length dir"
  unfolding uploadDirectory_def
  by (rule order_trans[OF card_image_le card_length]) simp

text \<open>
  C9, as stated, fails: not every run ends in an index error. With no network the first
  \<open>urlretrieve\<close> raises \<open>URLError\<close>, which ends the cell with nothing downloaded.
\<close>

theorem offline_run_raises_no_index_error:
  "download_cell urlretrieve_offline = (Inl (URLError ''Name or service not known''), [])"
  by (simp add: download_cell_def urls_def filenames_def list_item_def urlretrieve_offline_def)

text \<open>
  C9, amended. The download cell walks 16 URLs with a list of 14 file names, the last of
  which is the concatenation of two literals. Whatever \<open>urlretrieve\<close> does, the cell
  ends in an exception with at most 14 of the 16 documents in the data directory, so
  the upload step issues fewer uploads than there are documents. When none of the
  first 14 downloads raises, the exception is the \<open>IndexError\<close> of \<open>filenames[14]\<close>,
  raised after exactly the first 14 URLs were fetched. When the download of URL number
  \<open>i\<close> (counted from 0, \<open>i < 14\<close>) is the first to raise, the cell ends with that
  exception after exactly the \<open>i\<close> URLs before it were fetched.
\<close>

theorem download_cell_never_completes:
  "length urls = 16 \<and> length filenames = 14 \<and>
   last filenames = ''Amazondocumentdb.pdfneptune.pdf'' \<and>
   (\<exists>e dir. download_cell f = (Inl e, dir) \<and> length dir \<le> 14 \<and>
            card (uploadDirectory dir bucket_name) < length urls) \<and>
   ((\<forall>i<14. f (urls ! i) (data_root @ filenames ! i) = Inr ()) \<longrightarrow>
      download_cell f = (Inl IndexError, zip (map ((@) data_root) filenames) (take 14 urls))) \<and>
   (i < 14 \<and> (\<forall>j<i. f (urls ! j) (data_root @ filenames ! j) = Inr ()) \<and>
    f (urls ! i) (data_root @ filenames ! i) = Inl e' \<longrightarrow>
      download_cell f = (Inl e', zip (map ((@) data_root) (take i filenames)) (take i urls)))"
proof (intro conjI impI)
  show "length urls = 16" by (rule urls_length)
  show "length filenames = 14" by (rule filenames_length)
  show "last filenames = ''Amazondocumentdb.pdfneptune.pdf''" by (simp add: filenames_def)
  from download_cell_fails[of f] obtain e dir where
    d: "download_cell f = (Inl e, dir)" "length dir \<le> 14" by blast
  from uploadDirectory_card[of dir bucket_name] d(2)
  have "card (uploadDirectory dir bucket_name) < length urls" by (simp add: urls_length)
  with d show "\<exists>e dir. download_cell f = (Inl e, dir) \<and> length dir \<le> 14 \<and>
            card (uploadDirectory dir bucket_name) < length urls" by blast
next
  assume "\<forall>i<14. f (urls ! i) (data_root @ filenames ! i) = Inr ()"
  then show "download_cell f = (Inl IndexError, zip (map ((@) data_root) filenames) (take 14 urls))"
    by (rule download_cell_index_error)
next
  assume "i < 14 \<and> (\<forall>j<i. f (urls ! j) (data_root @ filenames ! j) = Inr ()) \<and>
    f (urls ! i) (data_root @ filenames ! i) = Inl e'"
  then show "download_cell f = (Inl e', zip (map ((@) data_root) (take i filenames)) (take i urls))"
    using download_cell_first_failure[of i f e'] by simp
qed

theorem download_cell_never_completes_witness:
  "download_cell urlretrieve_ok =
     (Inl IndexError, zip (map ((@) data_root) filenames) (take 14 urls)) \<and>
   length (snd (download_cell urlretrieve_ok)) = 14 \<and>
   download_cell urlretrieve_third_missing =
     (Inl (URLError ''HTTP Error 404: Not Found''),
      [(''./data/AmazonEC2UserGuide.pdf'', ''https://docs.aws.amazon.com/AWSEC2/latest/UserGuide/ec2-ug.pdf''),
       (''./data/AmazonS3UserGuide.pdf'', ''https://docs.aws.amazon.com/AmazonS3/latest/userguide/s3-userguide.pdf'')])"
proof -
  note t = download_cell_never_completes[of urlretrieve_ok "''bucket''" 0 IndexError]
  note u = download_cell_never_completes[of urlretrieve_third_missing "''bucket''" 2
             "URLError ''HTTP Error 404: Not Found''"]
  have "\<forall>i<14. urlretrieve_ok (urls ! i) (data_root @ filenames ! i) = Inr ()"
    by (simp add: urlretrieve_ok_def)
  with t have 1: "download_cell urlretrieve_ok =
     (Inl IndexError, zip (map ((@) data_root) filenames) (take 14 urls))"
    by blast
  have "\<forall>j<2. urlretrieve_third_missing (urls ! j) (data_root @ filenames ! j) = Inr ()"
  proof (intro allI impI)
    fix j :: nat assume "j < 2"
    then have "j = 0 \<or> j = 1" by auto
    then show "urlretrieve_third_missing (urls ! j) (data_root @ filenames ! j) = Inr ()"
      by (auto simp: urlretrieve_third_missing_def urls_def)
  qed
  moreover have "urlretrieve_third_missing (urls ! 2) (data_root @ filenames ! 2) =
      Inl (URLError ''HTTP Error 404: Not Found'')"
    by (simp add: urlretrieve_third_missing_def)
  ultimately have "download_cell urlretrieve_third_missing =
     (Inl (URLError ''HTTP Error 404: Not Found''),
      zip (map ((@) data_root) (take 2 filenames)) (take 2 urls))"
    using u by simp
  then have 2: "download_cell urlretrieve_third_missing =
     (Inl (URLError ''HTTP Error 404: Not Found''),
      [(''./data/AmazonEC2UserGuide.pdf'', ''https://docs.aws.amazon.com/AWSEC2/latest/UserGuide/ec2-ug.pdf''),
       (''./data/AmazonS3UserGuide.pdf'', ''https://docs.aws.amazon.com/AmazonS3/latest/userguide/s3-userguide.pdf'')])"
    by (simp add: filenames_def urls_def data_root_def)
  from 1 show ?thesis using 2 by (simp add: filenames_length urls_length)
qed

end
